theory Spec2Isabelle
  imports Main
begin

section \<open>Data model\<close>

text \<open>
  The server keeps its data in three document collections (facilities, bookings and the
  single system-settings document).  Object ids are abstracted to natural numbers and
  instants (JavaScript \<^verbatim>\<open>Date\<close> values) to integers counting milliseconds.
  Only the fields read or written by the booking routes and the scanner route are kept.
\<close>

type_synonym object_id = nat
type_synonym instant = int

datatype booking_status =
  PENDING | PENDING_ADMIN | APPROVED | REJECTED | CANCELLED | CHECKED_IN | CHECKED_OUT | EXPIRED

datatype approval_type = AUTO | MANUAL

datatype facility_type =
  PROJECTOR | LAB | BUS | HOSTEL | HALL | CLASSROOM | CONFERENCE_ROOM | EQUIPMENT | VEHICLE

datatype user_role = STUDENT | STAFF | ADMIN | EXTERNAL

text \<open>FacilitySchema: \<^verbatim>\<open>_id\<close>, \<^verbatim>\<open>type\<close>, \<^verbatim>\<open>isRestricted\<close>, \<^verbatim>\<open>active\<close>, \<^verbatim>\<open>maintenanceMode\<close>.\<close>

record facility =
  f_id :: object_id
  ftype :: facility_type
  isRestricted :: bool
  active :: bool
  maintenanceMode :: bool

text \<open>
  The nested \<^verbatim>\<open>approval\<close> object of a booking: type, by, at, notes.  It is a nested
  path of the schema, so every booking document has it; each of its fields may be unset.
\<close>

record approval_info =
  ap_type :: "approval_type option"
  ap_by :: "object_id option"
  ap_at :: "instant option"
  ap_notes :: "string option"

record audit_entry =
  au_action :: string
  au_by :: object_id
  au_at :: instant

text \<open>
  The object serialised into the QR image at creation and approval:
  \<^verbatim>\<open>{ bookingId, checkInCode, facilities, type: 'FACILITY_ACCESS' }\<close>.
\<close>

record qr_payload =
  qr_bookingId :: "object_id option"
  qr_checkInCode :: string
  qr_facilities :: "object_id list"
  qr_type :: string

text \<open>BookingSchema.\<close>

record booking =
  b_id :: object_id
  userId :: object_id
  facilities :: "object_id list"
  startTime :: instant
  endTime :: instant
  status :: booking_status
  approval :: approval_info
  isExternal :: bool
  externalOrg :: "string option"
  checkInCode :: string
  qrCodeUrl :: "qr_payload option"
  checkInAt :: "instant option"
  checkOutAt :: "instant option"
  audit :: "audit_entry list"

text \<open>The \<^verbatim>\<open>approval\<close> object of a document on which no approval field was set.\<close>

definition no_approval :: approval_info where
  "no_approval = \<lparr> ap_type = None, ap_by = None, ap_at = None, ap_notes = None \<rparr>"

text \<open>SystemSettingsSchema (the fields that speak about booking policy).\<close>

record system_settings =
  autoApprovalEnabled :: bool
  externalBookingsEnabled :: bool
  restrictedTypes :: "facility_type list"
  dailyBookingLimitPerUser :: "nat option"

record db =
  db_facilities :: "facility list"
  db_bookings :: "booking list"
  db_settings :: system_settings

text \<open>The authenticated user that the \<^verbatim>\<open>auth\<close> middleware puts on the request.\<close>

record user =
  u_id :: object_id
  u_role :: user_role

text \<open>
  What a handler takes from its surroundings: the clock (\<^verbatim>\<open>new Date()\<close>), the id
  Mongoose mints for a new document and the \<^verbatim>\<open>nanoid(8)\<close> default of
  \<^verbatim>\<open>checkInCode\<close>.
\<close>

record env =
  env_now :: instant
  env_fresh_id :: object_id
  env_nanoid :: string

text \<open>
  A response is an error with its HTTP status, or a success carrying the status and the
  booking sent back; the scanner also reports the action it took.
\<close>

datatype response = Failure nat | Reply nat booking | Scanned string booking

section \<open>POST /api/bookings\<close>

text \<open>
  The request body.  A field that is absent (or otherwise falsy) is \<open>None\<close>; an array,
  even the empty one, is truthy in JavaScript, so \<open>Some []\<close> is a present field.
\<close>

record booking_body =
  body_facilityIds :: "object_id list option"
  body_startTime :: "instant option"
  body_endTime :: "instant option"
  body_isExternal :: "bool option"
  body_externalOrg :: "string option"

text \<open>\<^verbatim>\<open>Facility.find({ _id: { $in: facilityIds }, active: true })\<close>\<close>

definition find_active_facilities :: "facility list \<Rightarrow> object_id list \<Rightarrow> facility list" where
  "find_active_facilities store facilityIds =
     filter (\<lambda>f. f_id f \<in> set facilityIds \<and> active f) store"

text \<open>
  \<^verbatim>\<open>Booking.find({ facilities: { $in: ids }, status: { $nin: ['REJECTED', 'CANCELLED',
  'EXPIRED'] }, $or: [{ startTime: { $lt: end }, endTime: { $gt: start } }] })\<close>
\<close>

definition find_overlapping ::
  "booking list \<Rightarrow> object_id list \<Rightarrow> instant \<Rightarrow> instant \<Rightarrow> booking list" where
  "find_overlapping bs ids startT endT =
     filter (\<lambda>b. list_ex (\<lambda>fid. fid \<in> set ids) (facilities b)
                \<and> status b \<notin> set [REJECTED, CANCELLED, EXPIRED]
                \<and> startTime b < endT \<and> endTime b > startT) bs"

text \<open>\<^verbatim>\<open>[...new Set(xs)]\<close>: the distinct elements in order of first occurrence.\<close>

definition uniq :: "'a list \<Rightarrow> 'a list" where
  "uniq xs = rev (remdups (rev xs))"

text \<open>\<^verbatim>\<open>Set.prototype.add\<close> on a set kept as the list of its elements in insertion order.\<close>

definition set_add :: "'a \<Rightarrow> 'a list \<Rightarrow> 'a list" where
  "set_add x acc = (if x \<in> set acc then acc else acc @ [x])"

text \<open>
  The two nested \<^verbatim>\<open>forEach\<close> loops that fill \<^verbatim>\<open>bookedSet\<close> with the ids of
  the overlapping bookings' facilities that belong to \<^verbatim>\<open>facilityIdsOfType\<close>.
\<close>

definition booked_set :: "booking list \<Rightarrow> object_id list \<Rightarrow> object_id list" where
  "booked_set overlapping facilityIdsOfType =
     fold (\<lambda>b acc. fold (\<lambda>fid acc'. if fid \<in> set facilityIdsOfType then set_add fid acc' else acc')
                          (facilities b) acc)
          overlapping []"

text \<open>
  The \<^verbatim>\<open>for (const type of types)\<close> loop of the capacity check; the result is the
  value of \<^verbatim>\<open>requiresAdminApproval\<close> when the loop is left.  An empty pool is
  skipped (\<^verbatim>\<open>continue\<close>), a saturated one ends the loop (\<^verbatim>\<open>break\<close>).
\<close>

fun capacity_loop ::
  "facility list \<Rightarrow> booking list \<Rightarrow> instant \<Rightarrow> instant \<Rightarrow> facility_type list \<Rightarrow> bool" where
  "capacity_loop store bs startT endT [] = False"
| "capacity_loop store bs startT endT (t # types) =
     (let facilitiesOfType = filter (\<lambda>f. ftype f = t \<and> active f \<and> \<not> maintenanceMode f) store in
      if facilitiesOfType = [] then capacity_loop store bs startT endT types
      else
        let facilityIdsOfType = map f_id facilitiesOfType;
            overlapping = find_overlapping bs facilityIdsOfType startT endT;
            bookedSet = booked_set overlapping facilityIdsOfType
        in if length bookedSet \<ge> length facilityIdsOfType then True
           else capacity_loop store bs startT endT types)"

text \<open>
  Lines 109 to 149: \<^verbatim>\<open>hasRestrictedFacility || isExternal\<close>, and the capacity check
  when neither holds.  \<open>facs\<close> are the facilities found for the request.
\<close>

definition requiresAdminApproval ::
  "facility list \<Rightarrow> booking list \<Rightarrow> facility list \<Rightarrow> bool \<Rightarrow> instant \<Rightarrow> instant \<Rightarrow> bool" where
  "requiresAdminApproval store bs facs ext startT endT =
     (let hasRestrictedFacility = list_ex isRestricted facs in
      if hasRestrictedFacility \<or> ext then True
      else capacity_loop store bs startT endT (uniq (map ftype facs)))"

text \<open>The document built by \<^verbatim>\<open>new Booking({...})\<close>, with its approval and QR payload.\<close>

definition new_booking ::
  "env \<Rightarrow> user \<Rightarrow> booking_body \<Rightarrow> object_id list \<Rightarrow> instant \<Rightarrow> instant \<Rightarrow> bool \<Rightarrow> booking" where
  "new_booking e u body facilityIds startT endT autoApprove =
     \<lparr> b_id = env_fresh_id e,
       userId = u_id u,
       facilities = facilityIds,
       startTime = startT,
       endTime = endT,
       status = (if autoApprove then APPROVED else PENDING_ADMIN),
       approval = (if autoApprove
                   then \<lparr> ap_type = Some AUTO, ap_by = None, ap_at = Some (env_now e), ap_notes = None \<rparr>
                   else no_approval),
       isExternal = (body_isExternal body = Some True),
       externalOrg = body_externalOrg body,
       checkInCode = env_nanoid e,
       qrCodeUrl = Some \<lparr> qr_bookingId = Some (env_fresh_id e), qr_checkInCode = env_nanoid e,
                          qr_facilities = facilityIds, qr_type = ''FACILITY_ACCESS'' \<rparr>,
       checkInAt = None,
       checkOutAt = None,
       audit = [] \<rparr>"

text \<open>\<^verbatim>\<open>booking.audit.push({ action, by, at })\<close>\<close>

definition push_audit :: "string \<Rightarrow> object_id \<Rightarrow> instant \<Rightarrow> booking \<Rightarrow> booking" where
  "push_audit action who at b =
     b \<lparr> audit := audit b @ [\<lparr> au_action = action, au_by = who, au_at = at \<rparr>] \<rparr>"

text \<open>
  The handler.  The response carries the booking as read back before the audit entry is
  pushed; the collection ends with the booking after the second \<^verbatim>\<open>save\<close>.
\<close>

definition post_bookings :: "env \<Rightarrow> user \<Rightarrow> booking_body \<Rightarrow> db \<Rightarrow> response \<times> db" where
  "post_bookings e u body d =
     (case (body_facilityIds body, body_startTime body, body_endTime body) of
        (Some facilityIds, Some startT, Some endT) \<Rightarrow>
          let facs = find_active_facilities (db_facilities d) facilityIds in
          if length facs \<noteq> length facilityIds then (Failure 404, d)
          else
            let conflicts = find_overlapping (db_bookings d) facilityIds startT endT in
            if length conflicts > 0 then (Failure 409, d)
            else
              let autoApprove = \<not> requiresAdminApproval (db_facilities d) (db_bookings d) facs
                                    (body_isExternal body = Some True) startT endT;
                  b = new_booking e u body facilityIds startT endT autoApprove;
                  saved = push_audit ''BOOKING_CREATED'' (u_id u) (env_now e) b
              in (Reply 201 b, d \<lparr> db_bookings := db_bookings d @ [saved] \<rparr>)
      | _ \<Rightarrow> (Failure 400, d))"

section \<open>PATCH /api/bookings/:id/approve, /reject and /cancel\<close>

text \<open>\<^verbatim>\<open>Booking.findById\<close> and \<^verbatim>\<open>booking.save()\<close> on the collection.\<close>

definition findById :: "booking list \<Rightarrow> object_id \<Rightarrow> booking option" where
  "findById bs i = find (\<lambda>b. b_id b = i) bs"

definition save :: "booking \<Rightarrow> booking list \<Rightarrow> booking list" where
  "save b bs = map (\<lambda>x. if b_id x = b_id b then b else x) bs"

text \<open>\<^verbatim>\<open>requireRole(roles)\<close>: the request goes on only for a user with one of the roles.\<close>

definition requireRole :: "user_role list \<Rightarrow> user \<Rightarrow> bool" where
  "requireRole allowedRoles u = (u_role u \<in> set allowedRoles)"

text \<open>JavaScript truthiness of an optional string (\<^verbatim>\<open>if (notes)\<close>).\<close>

definition truthy :: "string option \<Rightarrow> bool" where
  "truthy s = (case s of None \<Rightarrow> False | Some t \<Rightarrow> t \<noteq> [])"

definition qr_of :: "booking \<Rightarrow> qr_payload" where
  "qr_of b = \<lparr> qr_bookingId = Some (b_id b), qr_checkInCode = checkInCode b,
              qr_facilities = facilities b, qr_type = ''FACILITY_ACCESS'' \<rparr>"

text \<open>
  What each handler does with the booking it found: \<open>Inl\<close> is the status of the error it
  returns, \<open>Inr\<close> the booking it saves.
\<close>

definition approve_booking :: "env \<Rightarrow> user \<Rightarrow> string option \<Rightarrow> booking \<Rightarrow> nat + booking" where
  "approve_booking e u notes booking =
     (if status booking \<noteq> PENDING_ADMIN \<and> status booking \<noteq> PENDING then Inl 400
      else
        let b1 = booking \<lparr> status := APPROVED,
                           approval := \<lparr> ap_type = Some MANUAL, ap_by = Some (u_id u),
                                              ap_at = Some (env_now e), ap_notes = notes \<rparr> \<rparr>;
            b2 = (if qrCodeUrl b1 = None then b1 \<lparr> qrCodeUrl := Some (qr_of b1) \<rparr> else b1)
        in Inr (push_audit ''BOOKING_APPROVED'' (u_id u) (env_now e) b2))"

definition reject_booking :: "env \<Rightarrow> user \<Rightarrow> string option \<Rightarrow> booking \<Rightarrow> nat + booking" where
  "reject_booking e u notes booking =
     (let b1 = booking \<lparr> status := REJECTED,
                          approval := \<lparr> ap_type = Some MANUAL, ap_by = Some (u_id u),
                                             ap_at = Some (env_now e), ap_notes = notes \<rparr> \<rparr>
      in Inr (push_audit ''BOOKING_REJECTED'' (u_id u) (env_now e) b1))"

text \<open>
  In the cancel route the test \<^verbatim>\<open>if (!booking.approval)\<close> never succeeds, the nested
  object being present on every document; with notes given, only
  \<^verbatim>\<open>booking.approval.notes\<close> is written.
\<close>

definition cancel_booking :: "env \<Rightarrow> user \<Rightarrow> string option \<Rightarrow> booking \<Rightarrow> nat + booking" where
  "cancel_booking e u notes booking =
     (if u_role u \<noteq> ADMIN \<and> userId booking \<noteq> u_id u then Inl 403
      else if status booking = CHECKED_IN \<or> status booking = CHECKED_OUT then Inl 400
      else
        let b1 = push_audit ''BOOKING_CANCELLED'' (u_id u) (env_now e) (booking \<lparr> status := CANCELLED \<rparr>);
            b2 = (if truthy notes
                  then b1 \<lparr> approval := (approval b1) \<lparr> ap_notes := notes \<rparr> \<rparr>
                  else b1)
        in Inr b2)"

text \<open>The frame shared by the three routes: look the booking up, run the update, save.\<close>

definition with_booking ::
  "(booking \<Rightarrow> nat + booking) \<Rightarrow> object_id \<Rightarrow> db \<Rightarrow> response \<times> db" where
  "with_booking update i d =
     (case findById (db_bookings d) i of
        None \<Rightarrow> (Failure 404, d)
      | Some booking \<Rightarrow>
          (case update booking of
             Inl code \<Rightarrow> (Failure code, d)
           | Inr b' \<Rightarrow> (Reply 200 b', d \<lparr> db_bookings := save b' (db_bookings d) \<rparr>)))"

definition patch_approve :: "env \<Rightarrow> user \<Rightarrow> object_id \<Rightarrow> string option \<Rightarrow> db \<Rightarrow> response \<times> db" where
  "patch_approve e u i notes d =
     (if \<not> requireRole [ADMIN] u then (Failure 403, d)
      else with_booking (approve_booking e u notes) i d)"

definition patch_reject :: "env \<Rightarrow> user \<Rightarrow> object_id \<Rightarrow> string option \<Rightarrow> db \<Rightarrow> response \<times> db" where
  "patch_reject e u i notes d =
     (if \<not> requireRole [ADMIN] u then (Failure 403, d)
      else with_booking (reject_booking e u notes) i d)"

definition patch_cancel :: "env \<Rightarrow> user \<Rightarrow> object_id \<Rightarrow> string option \<Rightarrow> db \<Rightarrow> response \<times> db" where
  "patch_cancel e u i notes d = with_booking (cancel_booking e u notes) i d"

section \<open>POST /api/qr-scanner/scan\<close>

text \<open>
  \<^verbatim>\<open>String.prototype.toUpperCase\<close> on the ASCII strings that check-in codes are
  (\<^verbatim>\<open>nanoid\<close> draws from \<^verbatim>\<open>A-Za-z0-9_-\<close>): the letters a to z move to A to Z, every
  other character stays.
\<close>

definition is_lower :: "char \<Rightarrow> bool" where
  "is_lower c = (97 \<le> (of_char c :: nat) \<and> (of_char c :: nat) \<le> 122)"

definition toUpperCase_char :: "char \<Rightarrow> char" where
  "toUpperCase_char c = (if is_lower c then char_of ((of_char c :: nat) - 32) else c)"

definition toUpperCase :: "string \<Rightarrow> string" where
  "toUpperCase s = map toUpperCase_char s"

text \<open>
  The scan request: \<^verbatim>\<open>qrData\<close> is a string that \<^verbatim>\<open>JSON.parse\<close> either rejects or
  turns into a payload; an absent or empty field is \<open>None\<close>.
\<close>

datatype qr_data = Unparsable | Parsed qr_payload

record scan_body =
  scan_qrData :: "qr_data option"
  scan_manualCode :: "string option"

text \<open>Lines 13 to 37: the check-in code and the booking id the lookup will use.\<close>

definition scan_query :: "scan_body \<Rightarrow> nat + (string \<times> object_id option)" where
  "scan_query body =
     (case scan_qrData body of
        Some q \<Rightarrow>
          (case q of
             Unparsable \<Rightarrow> Inl 400
           | Parsed p \<Rightarrow>
               if qr_type p \<noteq> ''FACILITY_ACCESS'' then Inl 400
               else Inr (qr_checkInCode p, qr_bookingId p))
      | None \<Rightarrow>
          if truthy (scan_manualCode body)
          then Inr (toUpperCase (the (scan_manualCode body)), None)
          else Inl 400)"

text \<open>\<^verbatim>\<open>Booking.findOne({ checkInCode, _id? })\<close>\<close>

definition findOne_checkIn :: "booking list \<Rightarrow> string \<times> object_id option \<Rightarrow> booking option" where
  "findOne_checkIn bs q =
     find (\<lambda>b. checkInCode b = fst q \<and> (case snd q of None \<Rightarrow> True | Some i \<Rightarrow> b_id b = i)) bs"

text \<open>
  Lines 56 to 103: the status guard, the window of 30 minutes around the booking, and the
  transition.  The last branch is the one JavaScript would leave with \<^verbatim>\<open>action\<close>
  undefined; the guard above makes it unreachable.
\<close>

definition scan_booking :: "env \<Rightarrow> user \<Rightarrow> booking \<Rightarrow> nat + (string \<times> booking)" where
  "scan_booking e u booking =
     (if status booking \<notin> set [APPROVED, CHECKED_IN] then Inl 400
      else
        let now = env_now e;
            checkInStart = startTime booking - 30 * 60 * 1000;
            checkInEnd = endTime booking + 30 * 60 * 1000
        in if now < checkInStart then Inl 400
           else if now > checkInEnd then Inl 400
           else if status booking = APPROVED
             then Inr (''checkin'',
                       push_audit ''QR_CHECKIN'' (u_id u) now
                         (booking \<lparr> status := CHECKED_IN, checkInAt := Some now \<rparr>))
           else if status booking = CHECKED_IN
             then Inr (''checkout'',
                       push_audit ''QR_CHECKOUT'' (u_id u) now
                         (booking \<lparr> status := CHECKED_OUT, checkOutAt := Some now \<rparr>))
           else Inl 500)"

definition post_scan :: "env \<Rightarrow> user \<Rightarrow> scan_body \<Rightarrow> db \<Rightarrow> response \<times> db" where
  "post_scan e u body d =
     (if \<not> requireRole [ADMIN, STAFF] u then (Failure 403, d)
      else
        case scan_query body of
          Inl code \<Rightarrow> (Failure code, d)
        | Inr q \<Rightarrow>
            (case findOne_checkIn (db_bookings d) q of
               None \<Rightarrow> (Failure 404, d)
             | Some booking \<Rightarrow>
                 (case scan_booking e u booking of
                    Inl code \<Rightarrow> (Failure code, d)
                  | Inr (action, b') \<Rightarrow>
                      (Scanned action b', d \<lparr> db_bookings := save b' (db_bookings d) \<rparr>))))"

section \<open>Check-in requests\<close>

text \<open>
  CheckInRequestSchema and the two routes that lead to a manual check-in or check-out:
  the owner of a booking files a request, and an ADMIN or STAFF user approves it.  The
  feedback and damage-report fields of a request, which no route copies to a booking, are
  left out.
\<close>

datatype request_type = CHECK_IN | CHECK_OUT

datatype request_status = REQUEST_PENDING | REQUEST_APPROVED | REQUEST_REJECTED

record check_in_request =
  cr_id :: object_id
  cr_bookingId :: object_id
  cr_userId :: object_id
  cr_facilityId :: object_id
  cr_type :: request_type
  cr_status :: request_status
  cr_processedBy :: "object_id option"
  cr_processedAt :: "instant option"

record request_body =
  rb_bookingId :: "object_id option"
  rb_facilityId :: "object_id option"
  rb_type :: "request_type option"

datatype request_response = Refused nat | Answered nat check_in_request

text \<open>
  \<^verbatim>\<open>POST /api/check-in-requests\<close>: the booking must exist and belong to the user, and
  no pending request of the same type may exist for it.  The booking's status is not
  read.  The route writes the request collection only.
\<close>

definition post_check_in_request ::
  "env \<Rightarrow> user \<Rightarrow> request_body \<Rightarrow> check_in_request list \<Rightarrow> db
     \<Rightarrow> request_response \<times> check_in_request list" where
  "post_check_in_request e u body reqs d =
     (case (rb_bookingId body, rb_facilityId body, rb_type body) of
        (Some bookingId, Some facilityId, Some ty) \<Rightarrow>
          (case findById (db_bookings d) bookingId of
             None \<Rightarrow> (Refused 404, reqs)
           | Some booking \<Rightarrow>
               if userId booking \<noteq> u_id u then (Refused 403, reqs)
               else
                 (case find (\<lambda>r. cr_bookingId r = bookingId \<and> cr_type r = ty
                                  \<and> cr_status r = REQUEST_PENDING) reqs of
                    Some existingRequest \<Rightarrow> (Refused 400, reqs)
                  | None \<Rightarrow>
                      let request =
                            \<lparr> cr_id = env_fresh_id e, cr_bookingId = bookingId, cr_userId = u_id u,
                              cr_facilityId = facilityId, cr_type = ty, cr_status = REQUEST_PENDING,
                              cr_processedBy = None, cr_processedAt = None \<rparr>
                      in (Answered 201 request, reqs @ [request])))
      | _ \<Rightarrow> (Refused 400, reqs))"

definition save_request :: "check_in_request \<Rightarrow> check_in_request list \<Rightarrow> check_in_request list" where
  "save_request r reqs = map (\<lambda>x. if cr_id x = cr_id r then r else x) reqs"

text \<open>
  \<^verbatim>\<open>PATCH /api/check-in-requests/:id/approve\<close>: the request must be pending and its
  booking must exist; the booking's status is then set from the request's type, without
  being read, and the booking and the request are saved.
\<close>

definition patch_check_in_approve ::
  "env \<Rightarrow> user \<Rightarrow> object_id \<Rightarrow> check_in_request list \<Rightarrow> db
     \<Rightarrow> request_response \<times> check_in_request list \<times> db" where
  "patch_check_in_approve e u i reqs d =
     (if \<not> requireRole [ADMIN, STAFF] u then (Refused 403, reqs, d)
      else
        case find (\<lambda>r. cr_id r = i) reqs of
          None \<Rightarrow> (Refused 404, reqs, d)
        | Some request \<Rightarrow>
            if cr_status request \<noteq> REQUEST_PENDING then (Refused 400, reqs, d)
            else
              (case findById (db_bookings d) (cr_bookingId request) of
                 None \<Rightarrow> (Refused 404, reqs, d)
               | Some booking \<Rightarrow>
                   let now = env_now e;
                       b' = (if cr_type request = CHECK_IN
                             then push_audit ''MANUAL_CHECK_IN'' (u_id u) now
                                    (booking \<lparr> status := CHECKED_IN, checkInAt := Some now \<rparr>)
                             else push_audit ''MANUAL_CHECK_OUT'' (u_id u) now
                                    (booking \<lparr> status := CHECKED_OUT, checkOutAt := Some now \<rparr>));
                       r' = request \<lparr> cr_status := REQUEST_APPROVED,
                                       cr_processedBy := Some (u_id u),
                                       cr_processedAt := Some now \<rparr>
                   in (Answered 200 r', save_request r' reqs,
                       d \<lparr> db_bookings := save b' (db_bookings d) \<rparr>)))"

section \<open>The handlers' branches under the specification's names\<close>

text \<open>
  The creation handler has no decision value of its own.  \<open>decide\<close> names the branch it
  takes for a request whose fields are present, in the order the handler tests them:
  the 404 answer of the facility query, the 409 answer of the conflict query, and the two
  values of \<^verbatim>\<open>requiresAdminApproval\<close>.
\<close>

datatype decision = REJECT_CONFLICT | REJECT_INACTIVE | AUTO_APPROVE | REQUIRES_ADMIN_APPROVAL

definition decide :: "db \<Rightarrow> object_id list \<Rightarrow> instant \<Rightarrow> instant \<Rightarrow> bool \<Rightarrow> decision" where
  "decide d facilityIds startT endT ext =
     (let facs = find_active_facilities (db_facilities d) facilityIds in
      if length facs \<noteq> length facilityIds then REJECT_INACTIVE
      else if length (find_overlapping (db_bookings d) facilityIds startT endT) > 0
        then REJECT_CONFLICT
      else if requiresAdminApproval (db_facilities d) (db_bookings d) facs ext startT endT
        then REQUIRES_ADMIN_APPROVAL
      else AUTO_APPROVE)"

text \<open>The statuses the specification calls terminal.\<close>

definition terminal :: "booking_status \<Rightarrow> bool" where
  "terminal s = (s \<in> {REJECTED, CANCELLED, EXPIRED, CHECKED_OUT})"

text \<open>A check-in code with a lowercase letter in it.\<close>

definition has_lower :: "string \<Rightarrow> bool" where
  "has_lower s = list_ex is_lower s"

section \<open>The capacity rule in the words of the specification\<close>

text \<open>
  The pool of a type is the set of active facilities of that type that are not under
  maintenance; its reserved members are those on which a booking with a status other
  than REJECTED, CANCELLED and EXPIRED overlaps the interval.
\<close>

definition spec_pool :: "facility list \<Rightarrow> facility_type \<Rightarrow> facility set" where
  "spec_pool store t = {f \<in> set store. ftype f = t \<and> active f \<and> \<not> maintenanceMode f}"

definition spec_reserved ::
  "facility list \<Rightarrow> booking list \<Rightarrow> facility_type \<Rightarrow> instant \<Rightarrow> instant \<Rightarrow> facility set" where
  "spec_reserved store bs t startT endT =
     {f \<in> spec_pool store t.
        \<exists>b \<in> set bs. status b \<notin> {REJECTED, CANCELLED, EXPIRED} \<and> f_id f \<in> set (facilities b)
                      \<and> startTime b < endT \<and> endTime b > startT}"

section \<open>A small campus\<close>

text \<open>
  Concrete data for the scenarios below: a conference room, four labs (one restricted,
  one under maintenance, two ordinary), and bookings from 10:00 to 11:00.
\<close>

definition at_hm :: "int \<Rightarrow> int \<Rightarrow> instant" where
  "at_hm h m = (h * 60 + m) * 60 * 1000"

definition room :: facility where
  "room = \<lparr> f_id = 1, ftype = CONFERENCE_ROOM, isRestricted = False, active = True,
             maintenanceMode = False \<rparr>"

definition vault :: facility where
  "vault = \<lparr> f_id = 2, ftype = LAB, isRestricted = True, active = True,
              maintenanceMode = False \<rparr>"

definition workshop :: facility where
  "workshop = \<lparr> f_id = 3, ftype = LAB, isRestricted = False, active = True,
                 maintenanceMode = True \<rparr>"

definition bench :: facility where
  "bench = \<lparr> f_id = 4, ftype = LAB, isRestricted = False, active = True,
              maintenanceMode = False \<rparr>"


definition held :: "object_id \<Rightarrow> object_id \<Rightarrow> booking_status \<Rightarrow> string \<Rightarrow> booking" where
  "held i fid st code =
     \<lparr> b_id = i, userId = 7, facilities = [fid], startTime = at_hm 10 0, endTime = at_hm 11 0,
       status = st, approval = no_approval, isExternal = False, externalOrg = None,
       checkInCode = code, qrCodeUrl = None, checkInAt = None, checkOutAt = None, audit = [] \<rparr>"

definition policy :: "bool \<Rightarrow> system_settings" where
  "policy auto = \<lparr> autoApprovalEnabled = auto, externalBookingsEnabled = True,
                   restrictedTypes = [], dailyBookingLimitPerUser = None \<rparr>"

definition campus :: "facility list \<Rightarrow> booking list \<Rightarrow> db" where
  "campus facs bs = \<lparr> db_facilities = facs, db_bookings = bs, db_settings = policy True \<rparr>"

definition ask :: "object_id list \<Rightarrow> instant \<Rightarrow> instant \<Rightarrow> bool option \<Rightarrow> booking_body" where
  "ask ids s t ext = \<lparr> body_facilityIds = Some ids, body_startTime = Some s, body_endTime = Some t,
                       body_isExternal = ext, body_externalOrg = None \<rparr>"

definition student :: user where
  "student = \<lparr> u_id = 7, u_role = STUDENT \<rparr>"

definition registrar :: user where
  "registrar = \<lparr> u_id = 1, u_role = ADMIN \<rparr>"

definition morning :: env where
  "morning = \<lparr> env_now = at_hm 9 45, env_fresh_id = 20, env_nanoid = ''Uakgb_J5'' \<rparr>"

section \<open>Facts about the queries\<close>

text \<open>
  The conflict query returns a booking exactly when some stored booking is live, shares a
  facility with the query and overlaps the half-open interval.
\<close>

lemma find_overlapping_nonempty_iff:
  "(length (find_overlapping bs ids startT endT) > 0) =
     (\<exists>R \<in> set bs. status R \<notin> {REJECTED, CANCELLED, EXPIRED}
         \<and> set (facilities R) \<inter> set ids \<noteq> {}
         \<and> startTime R < endT \<and> endTime R > startT)"
  unfolding find_overlapping_def length_greater_0_conv filter_empty_conv list_ex_iff
  by auto

text \<open>
  Document ids are unique in a collection.  When the facility query returns as many
  documents as ids were asked for, every stored facility with a requested id was returned
  (and so is active).
\<close>

lemma requested_facility_found:
  assumes d: "distinct (map f_id store)"
      and len: "length (find_active_facilities store ids) = length ids"
      and f: "f \<in> set store" "f_id f \<in> set ids"
  shows "f \<in> set (find_active_facilities store ids)"
proof -
  let ?facs = "find_active_facilities store ids"
  have dist: "distinct (map f_id ?facs)"
    using d unfolding find_active_facilities_def by (rule distinct_map_filter)
  have sub: "set (map f_id ?facs) \<subseteq> set ids"
    by (auto simp: find_active_facilities_def)
  have "card (set (map f_id ?facs)) = length ids"
    using dist len by (metis distinct_card length_map)
  moreover have "card (set ids) \<le> length ids" by (rule card_length)
  ultimately have "card (set ids) \<le> card (set (map f_id ?facs))" by simp
  with sub have "set (map f_id ?facs) = set ids"
    by (meson List.finite_set card_seteq)
  with f(2) have "f_id f \<in> f_id ` set ?facs" by simp
  then obtain g where g: "g \<in> set ?facs" "f_id g = f_id f" by force
  then have "g \<in> set store" by (simp add: find_active_facilities_def)
  with d f(1) g(2) have "g = f"
    by (meson distinct_map inj_on_eq_iff)
  with g(1) show ?thesis by simp
qed

section \<open>Booking creation\<close>

text \<open>
  C1.  When the request names its facilities and interval and all facilities are found,
  the handler answers 409 (conflict) if and only if some stored booking has a status
  other than REJECTED, CANCELLED and EXPIRED, shares a facility id with the request and
  satisfies \<open>R.start < end\<close> and \<open>R.end > start\<close>.  A booking that ends exactly when the
  request starts is never among the conflicts.
\<close>

theorem conflict_reported_iff:
  assumes "body_facilityIds body = Some ids"
      and "body_startTime body = Some startT"
      and "body_endTime body = Some endT"
      and "length (find_active_facilities (db_facilities d) ids) = length ids"
  shows "(fst (post_bookings e u body d) = Failure 409 \<longleftrightarrow>
           (\<exists>R \<in> set (db_bookings d). status R \<notin> {REJECTED, CANCELLED, EXPIRED}
              \<and> set (facilities R) \<inter> set ids \<noteq> {}
              \<and> startTime R < endT \<and> endTime R > startT))
       \<and> (\<forall>R. endTime R = startT \<longrightarrow> R \<notin> set (find_overlapping (db_bookings d) ids startT endT))"
proof -
  have "fst (post_bookings e u body d) = Failure 409 \<longleftrightarrow>
        length (find_overlapping (db_bookings d) ids startT endT) > 0"
    using assms by (simp add: post_bookings_def Let_def)
  moreover have "\<forall>R. endTime R = startT \<longrightarrow> R \<notin> set (find_overlapping (db_bookings d) ids startT endT)"
    by (simp add: find_overlapping_def)
  ultimately show ?thesis
    by (simp only: find_overlapping_nonempty_iff) 
qed

theorem conflict_reported_iff_witness:
  "fst (post_bookings morning student (ask [1] (at_hm 10 30) (at_hm 11 30) None)
          (campus [room] [held 10 1 APPROVED ''V1StGXR8''])) = Failure 409
   \<and> fst (post_bookings morning student (ask [1] (at_hm 11 0) (at_hm 12 0) None)
          (campus [room] [held 10 1 APPROVED ''V1StGXR8''])) \<noteq> Failure 409"
proof -
  let ?d = "campus [room] [held 10 1 APPROVED ''V1StGXR8'']"
  have found: "length (find_active_facilities (db_facilities ?d) [1]) = length [1::nat]"
    by (simp add: campus_def room_def find_active_facilities_def)
  have a: "fst (post_bookings morning student (ask [1] (at_hm 10 30) (at_hm 11 30) None) ?d) = Failure 409"
    using conflict_reported_iff[of "ask [1] (at_hm 10 30) (at_hm 11 30) None" "[1]"
            "at_hm 10 30" "at_hm 11 30" ?d morning student] found
    by (simp add: ask_def campus_def held_def at_hm_def)
  have b: "fst (post_bookings morning student (ask [1] (at_hm 11 0) (at_hm 12 0) None) ?d) \<noteq> Failure 409"
    using conflict_reported_iff[of "ask [1] (at_hm 11 0) (at_hm 12 0) None" "[1]"
            "at_hm 11 0" "at_hm 12 0" ?d morning student] found
    by (simp add: ask_def campus_def held_def at_hm_def)
  from a b show ?thesis by simp
qed

text \<open>
  C3.  When the request is external or names a restricted facility, it is either refused
  (an error, the database unchanged) or a booking is created with status PENDING_ADMIN
  and no approval record; it is never approved automatically.
\<close>

theorem restricted_or_external_never_auto:
  assumes "distinct (map f_id (db_facilities d))"
      and "body_facilityIds body = Some ids"
      and "body_isExternal body = Some True
           \<or> (\<exists>f \<in> set (db_facilities d). f_id f \<in> set ids \<and> isRestricted f)"
  shows "(\<exists>c. post_bookings e u body d = (Failure c, d))
       \<or> (\<exists>b. post_bookings e u body d =
                 (Reply 201 b,
                  d \<lparr> db_bookings := db_bookings d @ [push_audit ''BOOKING_CREATED'' (u_id u) (env_now e) b] \<rparr>)
              \<and> status b = PENDING_ADMIN \<and> approval b = no_approval)"
proof (cases "body_startTime body")
  case None
  then show ?thesis using assms(2) by (simp add: post_bookings_def)
next
  case (Some startT)
  note st = Some
  show ?thesis
  proof (cases "body_endTime body")
    case None
    then show ?thesis using assms(2) st by (simp add: post_bookings_def)
  next
    case (Some endT)
    let ?facs = "find_active_facilities (db_facilities d) ids"
    show ?thesis
    proof (cases "length ?facs = length ids \<and> find_overlapping (db_bookings d) ids startT endT = []")
      case False
      then show ?thesis using assms(2) st Some
        by (auto simp: post_bookings_def Let_def)
    next
      case True
      have "requiresAdminApproval (db_facilities d) (db_bookings d) ?facs
              (body_isExternal body = Some True) startT endT"
      proof (cases "body_isExternal body = Some True")
        case True
        then show ?thesis by (simp add: requiresAdminApproval_def)
      next
        case False
        with assms(3) obtain f where f: "f \<in> set (db_facilities d)" "f_id f \<in> set ids" "isRestricted f"
          by blast
        from requested_facility_found[OF assms(1) _ f(1,2)] True
        have "f \<in> set ?facs" by simp
        with f(3) have "list_ex isRestricted ?facs" unfolding list_ex_iff by blast
        then show ?thesis by (simp add: requiresAdminApproval_def)
      qed
      then show ?thesis using assms(2) st Some True
        by (simp add: post_bookings_def Let_def new_booking_def)
    qed
  qed
qed

theorem restricted_or_external_never_auto_witness:
  "\<exists>b. post_bookings morning student (ask [2] (at_hm 10 0) (at_hm 11 0) None) (campus [room, vault] []) =
         (Reply 201 b, campus [room, vault] [push_audit ''BOOKING_CREATED'' 7 (at_hm 9 45) b])
       \<and> status b = PENDING_ADMIN \<and> approval b = no_approval"
proof -
  let ?d = "campus [room, vault] []"
  let ?body = "ask [2] (at_hm 10 0) (at_hm 11 0) None"
  have 1: "distinct (map f_id (db_facilities ?d))"
    by (simp add: campus_def room_def vault_def)
  have 2: "body_facilityIds ?body = Some [2]" by (simp add: ask_def)
  have 3: "body_isExternal ?body = Some True
           \<or> (\<exists>f \<in> set (db_facilities ?d). f_id f \<in> set [2] \<and> isRestricted f)"
    by (simp add: campus_def room_def vault_def)
  have 4: "\<nexists>c. post_bookings morning student ?body ?d = (Failure c, ?d)"
    by (simp add: post_bookings_def ask_def campus_def room_def vault_def find_active_facilities_def
          find_overlapping_def Let_def)
  from restricted_or_external_never_auto[OF 1 2 3, of morning student] 4
  show ?thesis
    by (simp add: campus_def student_def morning_def)
qed

section \<open>The capacity check\<close>

text \<open>
  The set built by the two loops holds exactly the pool ids that occur in an overlapping
  booking, each once; with unique facility ids its size is the number of reserved pool
  members and the length of the pool query is the size of the pool.
\<close>

lemma inner_fold_set:
  "set (fold (\<lambda>fid acc'. if fid \<in> set ids then set_add fid acc' else acc') fs acc)
     = set acc \<union> (set fs \<inter> set ids)"
  by (induction fs arbitrary: acc) (auto simp: set_add_def)

lemma inner_fold_distinct:
  "distinct acc \<Longrightarrow>
   distinct (fold (\<lambda>fid acc'. if fid \<in> set ids then set_add fid acc' else acc') fs acc)"
  by (induction fs arbitrary: acc) (auto simp: set_add_def)

lemma outer_fold_set:
  "set (fold (\<lambda>b acc. fold (\<lambda>fid acc'. if fid \<in> set ids then set_add fid acc' else acc')
                          (facilities b) acc) ov acc)
     = set acc \<union> {i \<in> set ids. \<exists>b \<in> set ov. i \<in> set (facilities b)}"
  by (induction ov arbitrary: acc) (auto simp: inner_fold_set)

lemma outer_fold_distinct:
  "distinct acc \<Longrightarrow>
   distinct (fold (\<lambda>b acc. fold (\<lambda>fid acc'. if fid \<in> set ids then set_add fid acc' else acc')
                          (facilities b) acc) ov acc)"
  by (induction ov arbitrary: acc) (auto simp: inner_fold_distinct)

lemma booked_set_set:
  "set (booked_set ov ids) = {i \<in> set ids. \<exists>b \<in> set ov. i \<in> set (facilities b)}"
  by (simp add: booked_set_def outer_fold_set)

lemma booked_set_distinct: "distinct (booked_set ov ids)"
  by (simp add: booked_set_def outer_fold_distinct)

lemma pool_length:
  assumes "distinct (map f_id store)"
  shows "length (filter (\<lambda>f. ftype f = t \<and> active f \<and> \<not> maintenanceMode f) store)
           = card (spec_pool store t)"
proof -
  let ?pool = "filter (\<lambda>f. ftype f = t \<and> active f \<and> \<not> maintenanceMode f) store"
  from assms have "distinct store" by (simp add: distinct_map)
  then have "distinct ?pool" by simp
  then have "card (set ?pool) = length ?pool" by (rule distinct_card)
  moreover have "set ?pool = spec_pool store t" by (auto simp: spec_pool_def)
  ultimately show ?thesis by simp
qed

lemma in_find_overlapping:
  "b \<in> set (find_overlapping bs ids startT endT) \<longleftrightarrow>
     b \<in> set bs \<and> (\<exists>fid \<in> set (facilities b). fid \<in> set ids)
       \<and> status b \<notin> {REJECTED, CANCELLED, EXPIRED} \<and> startTime b < endT \<and> endTime b > startT"
  by (simp add: find_overlapping_def list_ex_iff)

lemma booked_ids_image:
  "{i \<in> set (map f_id pool). \<exists>b \<in> set (find_overlapping bs (map f_id pool) startT endT).
        i \<in> set (facilities b)}
   = f_id ` {f \<in> set pool. \<exists>b \<in> set bs. status b \<notin> {REJECTED, CANCELLED, EXPIRED}
                \<and> f_id f \<in> set (facilities b) \<and> startTime b < endT \<and> endTime b > startT}"
  (is "?L = f_id ` ?R")
proof (intro set_eqI iffI)
  fix i assume "i \<in> ?L"
  then obtain b where i: "i \<in> set (map f_id pool)"
    and b: "b \<in> set (find_overlapping bs (map f_id pool) startT endT)" "i \<in> set (facilities b)"
    by blast
  from i obtain f where f: "f \<in> set pool" "f_id f = i" by auto
  from b(1) have "b \<in> set bs" "status b \<notin> {REJECTED, CANCELLED, EXPIRED}"
    "startTime b < endT" "endTime b > startT"
    unfolding in_find_overlapping by blast+
  with f b(2) have "f \<in> ?R" by blast
  with f(2) show "i \<in> f_id ` ?R" by blast
next
  fix i assume "i \<in> f_id ` ?R"
  then obtain f b where f: "f \<in> set pool" "i = f_id f"
    and b: "b \<in> set bs" "status b \<notin> {REJECTED, CANCELLED, EXPIRED}"
      "f_id f \<in> set (facilities b)" "startTime b < endT" "endTime b > startT"
    by blast
  from f have fi: "f_id f \<in> set (map f_id pool)" by simp
  with b have "b \<in> set (find_overlapping bs (map f_id pool) startT endT)"
    unfolding in_find_overlapping by blast
  with fi b(3) f(2) show "i \<in> ?L" by blast
qed

lemma booked_length:
  assumes d: "distinct (map f_id store)"
  shows "length (booked_set
           (find_overlapping bs (map f_id (filter (\<lambda>f. ftype f = t \<and> active f \<and> \<not> maintenanceMode f) store)) startT endT)
           (map f_id (filter (\<lambda>f. ftype f = t \<and> active f \<and> \<not> maintenanceMode f) store)))
         = card (spec_reserved store bs t startT endT)"
proof -
  define pool where "pool = filter (\<lambda>f. ftype f = t \<and> active f \<and> \<not> maintenanceMode f) store"
  have pool: "set pool = spec_pool store t" by (auto simp: spec_pool_def pool_def)
  have res: "spec_reserved store bs t startT endT =
      {f \<in> set pool. \<exists>b \<in> set bs. status b \<notin> {REJECTED, CANCELLED, EXPIRED}
                \<and> f_id f \<in> set (facilities b) \<and> startTime b < endT \<and> endTime b > startT}"
    unfolding spec_reserved_def pool ..
  have "inj_on f_id (set store)" using d by (simp add: distinct_map)
  moreover have "spec_reserved store bs t startT endT \<subseteq> set store"
    by (auto simp: spec_reserved_def spec_pool_def)
  ultimately have inj: "inj_on f_id (spec_reserved store bs t startT endT)"
    by (rule inj_on_subset)
  have "set (booked_set (find_overlapping bs (map f_id pool) startT endT) (map f_id pool))
          = f_id ` spec_reserved store bs t startT endT"
    unfolding booked_set_set res by (rule booked_ids_image)
  then have "card (set (booked_set (find_overlapping bs (map f_id pool) startT endT) (map f_id pool)))
          = card (spec_reserved store bs t startT endT)"
    using inj by (simp add: card_image)
  then show ?thesis
    unfolding pool_def[symmetric]
    by (simp add: distinct_card[OF booked_set_distinct])
qed

lemma capacity_loop_iff:
  assumes d: "distinct (map f_id store)"
  shows "capacity_loop store bs startT endT ts \<longleftrightarrow>
           (\<exists>t \<in> set ts. spec_pool store t \<noteq> {}
               \<and> card (spec_pool store t) \<le> card (spec_reserved store bs t startT endT))"
proof (induction ts)
  case Nil
  show ?case by simp
next
  case (Cons t ts)
  have e: "filter (\<lambda>f. ftype f = t \<and> active f \<and> \<not> maintenanceMode f) store = [] \<longleftrightarrow> spec_pool store t = {}"
    by (auto simp: spec_pool_def filter_empty_conv)
  show ?case
    using Cons.IH e by (simp only: capacity_loop.simps Let_def booked_length[OF d] pool_length[OF d] length_map list.set bex_simps) auto
qed

text \<open>What a 201 answer says about the request and the database.\<close>

lemma set_uniq: "set (uniq xs) = set xs"
  by (simp add: uniq_def)

lemma post_bookings_created:
  assumes "fst (post_bookings e u body d) = Reply c b"
  shows "\<exists>ids startT endT.
           body_facilityIds body = Some ids \<and> body_startTime body = Some startT
         \<and> body_endTime body = Some endT
         \<and> length (find_active_facilities (db_facilities d) ids) = length ids
         \<and> find_overlapping (db_bookings d) ids startT endT = []
         \<and> c = 201
         \<and> b = new_booking e u body ids startT endT
                 (\<not> requiresAdminApproval (db_facilities d) (db_bookings d)
                      (find_active_facilities (db_facilities d) ids)
                      (body_isExternal body = Some True) startT endT)
         \<and> snd (post_bookings e u body d) =
               d \<lparr> db_bookings := db_bookings d @ [push_audit ''BOOKING_CREATED'' (u_id u) (env_now e) b] \<rparr>"
  using assms
  by (auto simp: post_bookings_def Let_def split: option.splits if_splits)

text \<open>
  A request for the lab under maintenance, when no other lab is in the catalogue: the
  facility query does not look at \<^verbatim>\<open>maintenanceMode\<close>, the pool of the type is empty and
  skipped, and the booking is created and approved.
\<close>

lemma maintenance_request_created:
  "post_bookings morning student (ask [3] (at_hm 10 0) (at_hm 11 0) None) (campus [room, workshop] []) =
     (Reply 201 (new_booking morning student (ask [3] (at_hm 10 0) (at_hm 11 0) None) [3]
                   (at_hm 10 0) (at_hm 11 0) True),
      campus [room, workshop]
        [push_audit ''BOOKING_CREATED'' 7 (at_hm 9 45)
           (new_booking morning student (ask [3] (at_hm 10 0) (at_hm 11 0) None) [3]
              (at_hm 10 0) (at_hm 11 0) True)])"
  by (simp add: post_bookings_def ask_def campus_def room_def workshop_def student_def morning_def
        find_active_facilities_def find_overlapping_def requiresAdminApproval_def uniq_def Let_def)

text \<open>
  The rule as the handler computes it, for any created booking of a request that is not
  external and names no restricted facility: PENDING_ADMIN exactly when some requested
  facility's type has a non-empty pool all of whose members are reserved in the interval.
  A type with an empty pool is skipped.
\<close>

lemma saturation_with_nonempty_pool:
  assumes dist: "distinct (map f_id (db_facilities d))"
      and ids: "body_facilityIds body = Some ids"
      and st: "body_startTime body = Some startT"
      and en: "body_endTime body = Some endT"
      and created: "fst (post_bookings e u body d) = Reply c b"
      and noext: "body_isExternal body \<noteq> Some True"
      and nrestr: "\<not> (\<exists>f \<in> set (db_facilities d). f_id f \<in> set ids \<and> isRestricted f)"
  shows "status b =
           (if \<exists>f \<in> set (db_facilities d). f_id f \<in> set ids
                  \<and> spec_pool (db_facilities d) (ftype f) \<noteq> {}
                  \<and> card (spec_pool (db_facilities d) (ftype f))
                       \<le> card (spec_reserved (db_facilities d) (db_bookings d) (ftype f) startT endT)
            then PENDING_ADMIN else APPROVED)"
proof -
  let ?store = "db_facilities d"
  let ?facs = "find_active_facilities ?store ids"
  from post_bookings_created[OF created] ids st en
  have len: "length ?facs = length ids"
    and b: "b = new_booking e u body ids startT endT
                 (\<not> requiresAdminApproval ?store (db_bookings d) ?facs
                      (body_isExternal body = Some True) startT endT)"
    by auto
  have facs: "set ?facs = {f \<in> set ?store. f_id f \<in> set ids}"
  proof (intro set_eqI iffI)
    fix f assume "f \<in> set ?facs"
    then show "f \<in> {f \<in> set ?store. f_id f \<in> set ids}"
      by (simp add: find_active_facilities_def)
  next
    fix f assume "f \<in> {f \<in> set ?store. f_id f \<in> set ids}"
    then show "f \<in> set ?facs"
      using requested_facility_found[OF dist len] by simp
  qed
  have nr: "\<not> list_ex isRestricted ?facs"
    using nrestr unfolding list_ex_iff facs by blast
  have "requiresAdminApproval ?store (db_bookings d) ?facs (body_isExternal body = Some True) startT endT
        = capacity_loop ?store (db_bookings d) startT endT (uniq (map ftype ?facs))"
    using nr noext by (simp add: requiresAdminApproval_def)
  also have "\<dots> = (\<exists>t \<in> ftype ` set ?facs. spec_pool ?store t \<noteq> {}
               \<and> card (spec_pool ?store t) \<le> card (spec_reserved ?store (db_bookings d) t startT endT))"
    unfolding capacity_loop_iff[OF dist] set_uniq by simp
  also have "\<dots> = (\<exists>f \<in> set ?store. f_id f \<in> set ids
                  \<and> spec_pool ?store (ftype f) \<noteq> {}
                  \<and> card (spec_pool ?store (ftype f))
                       \<le> card (spec_reserved ?store (db_bookings d) (ftype f) startT endT))"
    unfolding facs by blast
  finally show ?thesis
    unfolding b by (simp add: new_booking_def)
qed

text \<open>
  A requested facility that was found and is not under maintenance belongs to the pool of
  its type.
\<close>

lemma requested_in_pool:
  assumes dist: "distinct (map f_id store)"
      and len: "length (find_active_facilities store ids) = length ids"
      and f: "f \<in> set store" "f_id f \<in> set ids" "\<not> maintenanceMode f"
  shows "f \<in> spec_pool store (ftype f)"
proof -
  from requested_facility_found[OF dist len f(1,2)] have "active f"
    by (simp add: find_active_facilities_def)
  with f(1,3) show ?thesis by (simp add: spec_pool_def)
qed



text \<open>
  On such a request the condition never holds: the conflict query found the requested
  facility free, and it is itself a member of its pool.
\<close>

lemma requested_never_saturated:
  assumes dist: "distinct (map f_id (db_facilities d))"
      and ids: "body_facilityIds body = Some ids"
      and st: "body_startTime body = Some startT"
      and en: "body_endTime body = Some endT"
      and created: "fst (post_bookings e u body d) = Reply c b"
      and noext: "body_isExternal body \<noteq> Some True"
      and nrestr: "\<not> (\<exists>f \<in> set (db_facilities d). f_id f \<in> set ids \<and> isRestricted f)"
      and nomaint: "\<not> (\<exists>f \<in> set (db_facilities d). f_id f \<in> set ids \<and> maintenanceMode f)"
  shows "status b = APPROVED"
proof -
  let ?store = "db_facilities d"
  from post_bookings_created[OF created] ids st en
  have len: "length (find_active_facilities ?store ids) = length ids"
    and free: "find_overlapping (db_bookings d) ids startT endT = []" by auto
  have less: "card (spec_reserved ?store (db_bookings d) (ftype f) startT endT)
                < card (spec_pool ?store (ftype f))"
    if f: "f \<in> set ?store" "f_id f \<in> set ids" for f
  proof -
    from f nomaint have "\<not> maintenanceMode f" by blast
    from requested_in_pool[OF dist len f this] have inpool: "f \<in> spec_pool ?store (ftype f)" .
    have "f \<notin> spec_reserved ?store (db_bookings d) (ftype f) startT endT"
    proof
      assume "f \<in> spec_reserved ?store (db_bookings d) (ftype f) startT endT"
      then obtain bk where bk: "bk \<in> set (db_bookings d)"
        "status bk \<notin> {REJECTED, CANCELLED, EXPIRED}" "f_id f \<in> set (facilities bk)"
        "startTime bk < endT" "endTime bk > startT"
        unfolding spec_reserved_def by blast
      with f(2) have "bk \<in> set (find_overlapping (db_bookings d) ids startT endT)"
        unfolding in_find_overlapping by blast
      with free show False by simp
    qed
    with inpool have "spec_reserved ?store (db_bookings d) (ftype f) startT endT
                        \<subset> spec_pool ?store (ftype f)"
      unfolding spec_reserved_def by blast
    moreover have "finite (spec_pool ?store (ftype f))" by (simp add: spec_pool_def)
    ultimately show ?thesis by (rule psubset_card_mono[rotated])
  qed
  have "\<not> (\<exists>f \<in> set ?store. f_id f \<in> set ids
                  \<and> spec_pool ?store (ftype f) \<noteq> {}
                  \<and> card (spec_pool ?store (ftype f))
                       \<le> card (spec_reserved ?store (db_bookings d) (ftype f) startT endT))"
    using less by (meson not_less)
  with saturation_with_nonempty_pool[OF dist ids st en created noext nrestr]
  show ?thesis by simp
qed

text \<open>
  A request naming a facility whose \<^verbatim>\<open>active\<close> flag is off is answered 404 before the
  conflict query, and nothing is stored.
\<close>

lemma inactive_facility_refused:
  assumes "distinct (map f_id (db_facilities d))"
      and "body_facilityIds body = Some ids"
      and "body_startTime body = Some startT"
      and "body_endTime body = Some endT"
      and "f \<in> set (db_facilities d)" "f_id f \<in> set ids" "\<not> active f"
  shows "post_bookings e u body d = (Failure 404, d)"
proof -
  have "length (find_active_facilities (db_facilities d) ids) \<noteq> length ids"
  proof
    assume "length (find_active_facilities (db_facilities d) ids) = length ids"
    from requested_facility_found[OF assms(1) this assms(5,6)] assms(7)
    show False by (simp add: find_active_facilities_def)
  qed
  then show ?thesis using assms(2,3,4) by (simp add: post_bookings_def)
qed

text \<open>
  C2.  The claim asks that a request naming a facility under maintenance be refused.
  The handler's facility query filters on \<^verbatim>\<open>active\<close> only: the request below, for the
  lab whose \<^verbatim>\<open>maintenanceMode\<close> is set, is answered 201 and the booking is stored,
  approved automatically.
\<close>

theorem maintenance_facility_auto_approved:
  "maintenanceMode workshop
   \<and> (\<exists>b. post_bookings morning student (ask [3] (at_hm 10 0) (at_hm 11 0) None)
              (campus [room, workshop] []) =
             (Reply 201 b, campus [room, workshop] [push_audit ''BOOKING_CREATED'' 7 (at_hm 9 45) b])
          \<and> facilities b = [3] \<and> status b = APPROVED
          \<and> ap_type (approval b) = Some AUTO)"
proof -
  have "maintenanceMode workshop" by (simp add: workshop_def)
  moreover have "\<exists>b. post_bookings morning student (ask [3] (at_hm 10 0) (at_hm 11 0) None)
              (campus [room, workshop] []) =
             (Reply 201 b, campus [room, workshop] [push_audit ''BOOKING_CREATED'' 7 (at_hm 9 45) b])
          \<and> facilities b = [3] \<and> status b = APPROVED
          \<and> ap_type (approval b) = Some AUTO"
    by (simp add: maintenance_request_created new_booking_def)
  ultimately show ?thesis by blast
qed

text \<open>
  Two requests that the route's validator (\<^verbatim>\<open>validateBooking\<close>, never mounted on the
  route) would refuse: an interval that ends before it starts, and an empty list of
  facilities.  The handler tests only that the three fields are present.
\<close>

lemma backwards_request_created:
  "post_bookings morning student (ask [1] (at_hm 11 0) (at_hm 10 0) None) (campus [room] []) =
     (Reply 201 (new_booking morning student (ask [1] (at_hm 11 0) (at_hm 10 0) None) [1]
                   (at_hm 11 0) (at_hm 10 0) True),
      campus [room]
        [push_audit ''BOOKING_CREATED'' 7 (at_hm 9 45)
           (new_booking morning student (ask [1] (at_hm 11 0) (at_hm 10 0) None) [1]
              (at_hm 11 0) (at_hm 10 0) True)])"
  by (simp add: post_bookings_def ask_def campus_def room_def student_def morning_def
        find_active_facilities_def find_overlapping_def requiresAdminApproval_def uniq_def
        booked_set_def Let_def)

lemma empty_request_created:
  "post_bookings morning student (ask [] (at_hm 10 0) (at_hm 11 0) None) (campus [room] []) =
     (Reply 201 (new_booking morning student (ask [] (at_hm 10 0) (at_hm 11 0) None) []
                   (at_hm 10 0) (at_hm 11 0) True),
      campus [room]
        [push_audit ''BOOKING_CREATED'' 7 (at_hm 9 45)
           (new_booking morning student (ask [] (at_hm 10 0) (at_hm 11 0) None) []
              (at_hm 10 0) (at_hm 11 0) True)])"
  by (simp add: post_bookings_def ask_def campus_def room_def student_def morning_def
        find_active_facilities_def find_overlapping_def requiresAdminApproval_def uniq_def
        booked_set_def Let_def)

text \<open>
  C5.  The claim asks for a validation error, with nothing created, when the interval is
  malformed or the facility list is empty.  Both requests go through the conflict query
  and the approval logic and end in a stored, approved booking.
\<close>

theorem malformed_requests_create_bookings:
  "(\<exists>b. post_bookings morning student (ask [1] (at_hm 11 0) (at_hm 10 0) None) (campus [room] []) =
          (Reply 201 b, campus [room] [push_audit ''BOOKING_CREATED'' 7 (at_hm 9 45) b])
        \<and> endTime b < startTime b \<and> status b = APPROVED)
   \<and> (\<exists>b. post_bookings morning student (ask [] (at_hm 10 0) (at_hm 11 0) None) (campus [room] []) =
          (Reply 201 b, campus [room] [push_audit ''BOOKING_CREATED'' 7 (at_hm 9 45) b])
        \<and> facilities b = [] \<and> status b = APPROVED)"
proof -
  have "\<exists>b. post_bookings morning student (ask [1] (at_hm 11 0) (at_hm 10 0) None) (campus [room] []) =
          (Reply 201 b, campus [room] [push_audit ''BOOKING_CREATED'' 7 (at_hm 9 45) b])
        \<and> endTime b < startTime b \<and> status b = APPROVED"
    unfolding backwards_request_created by (simp add: new_booking_def at_hm_def)
  moreover
  have "\<exists>b. post_bookings morning student (ask [] (at_hm 10 0) (at_hm 11 0) None) (campus [room] []) =
          (Reply 201 b, campus [room] [push_audit ''BOOKING_CREATED'' 7 (at_hm 9 45) b])
        \<and> facilities b = [] \<and> status b = APPROVED"
    unfolding empty_request_created by (simp add: new_booking_def)
  ultimately show ?thesis by blast
qed

text \<open>
  C6.  For a request whose fields are present, the branch taken fixes the outcome:
  AUTO_APPROVE stores a booking with status APPROVED and approval type AUTO,
  REQUIRES_ADMIN_APPROVAL stores one with status PENDING_ADMIN and no approval,
  REJECT_CONFLICT answers 409 and REJECT_INACTIVE answers 404, both leaving the database
  as it was.
\<close>

theorem decision_maps_to_state:
  assumes "body_facilityIds body = Some ids"
      and "body_startTime body = Some startT"
      and "body_endTime body = Some endT"
  shows "case decide d ids startT endT (body_isExternal body = Some True) of
           AUTO_APPROVE \<Rightarrow>
             (\<exists>b. post_bookings e u body d =
                    (Reply 201 b,
                     d \<lparr> db_bookings := db_bookings d @ [push_audit ''BOOKING_CREATED'' (u_id u) (env_now e) b] \<rparr>)
                 \<and> status b = APPROVED \<and> ap_type (approval b) = Some AUTO)
         | REQUIRES_ADMIN_APPROVAL \<Rightarrow>
             (\<exists>b. post_bookings e u body d =
                    (Reply 201 b,
                     d \<lparr> db_bookings := db_bookings d @ [push_audit ''BOOKING_CREATED'' (u_id u) (env_now e) b] \<rparr>)
                 \<and> status b = PENDING_ADMIN \<and> approval b = no_approval)
         | REJECT_CONFLICT \<Rightarrow> post_bookings e u body d = (Failure 409, d)
         | REJECT_INACTIVE \<Rightarrow> post_bookings e u body d = (Failure 404, d)"
  using assms
  by (simp add: decide_def post_bookings_def Let_def new_booking_def)

theorem decision_maps_to_state_witness:
  "decide (campus [room] [held 10 1 APPROVED ''V1StGXR8'']) [1] (at_hm 11 0) (at_hm 12 0) False = AUTO_APPROVE
   \<and> (\<exists>b. post_bookings morning student (ask [1] (at_hm 11 0) (at_hm 12 0) None)
              (campus [room] [held 10 1 APPROVED ''V1StGXR8'']) =
            (Reply 201 b,
             campus [room] [held 10 1 APPROVED ''V1StGXR8'', push_audit ''BOOKING_CREATED'' 7 (at_hm 9 45) b])
          \<and> status b = APPROVED \<and> ap_type (approval b) = Some AUTO)"
proof -
  let ?d = "campus [room] [held 10 1 APPROVED ''V1StGXR8'']"
  let ?body = "ask [1] (at_hm 11 0) (at_hm 12 0) None"
  have dec: "decide ?d [1] (at_hm 11 0) (at_hm 12 0) False = AUTO_APPROVE"
    by (simp add: decide_def campus_def room_def held_def at_hm_def find_active_facilities_def
          find_overlapping_def requiresAdminApproval_def uniq_def booked_set_def set_add_def Let_def)
  have f: "body_facilityIds ?body = Some [1]" "body_startTime ?body = Some (at_hm 11 0)"
    "body_endTime ?body = Some (at_hm 12 0)" "(body_isExternal ?body = Some True) = False"
    by (simp_all add: ask_def)
  from decision_maps_to_state[where d="?d" and e=morning and u=student, OF f(1,2,3)] dec f(4)
  show ?thesis
    by (simp add: campus_def student_def morning_def)
qed

text \<open>
  C10.  The outcome of a creation request does not depend on the settings document: with
  any two settings the response and the resulting bookings are the same; in particular,
  whatever the other settings, with \<^verbatim>\<open>autoApprovalEnabled\<close> switched off the request for
  the free conference room is still stored as APPROVED with approval type AUTO.
\<close>

theorem creation_ignores_settings:
  "fst (post_bookings e u body (d \<lparr> db_settings := s1 \<rparr>))
     = fst (post_bookings e u body (d \<lparr> db_settings := s2 \<rparr>))
   \<and> db_bookings (snd (post_bookings e u body (d \<lparr> db_settings := s1 \<rparr>)))
     = db_bookings (snd (post_bookings e u body (d \<lparr> db_settings := s2 \<rparr>)))
   \<and> (\<exists>b. fst (post_bookings morning student (ask [1] (at_hm 11 0) (at_hm 12 0) None)
                 (campus [room] [held 10 1 APPROVED ''V1StGXR8'']
                    \<lparr> db_settings := s1 \<lparr> autoApprovalEnabled := False \<rparr> \<rparr>)) = Reply 201 b
          \<and> status b = APPROVED \<and> ap_type (approval b) = Some AUTO)"
proof -
  have a: "fst (post_bookings e u body (d \<lparr> db_settings := s1 \<rparr>))
     = fst (post_bookings e u body (d \<lparr> db_settings := s2 \<rparr>))"
    by (simp add: post_bookings_def Let_def split: option.splits)
  have b: "db_bookings (snd (post_bookings e u body (d \<lparr> db_settings := s1 \<rparr>)))
     = db_bookings (snd (post_bookings e u body (d \<lparr> db_settings := s2 \<rparr>)))"
    by (simp add: post_bookings_def Let_def split: option.splits)
  have c: "\<exists>b. fst (post_bookings morning student (ask [1] (at_hm 11 0) (at_hm 12 0) None)
                 (campus [room] [held 10 1 APPROVED ''V1StGXR8'']
                    \<lparr> db_settings := s1 \<lparr> autoApprovalEnabled := False \<rparr> \<rparr>)) = Reply 201 b
          \<and> status b = APPROVED \<and> ap_type (approval b) = Some AUTO"
    by (simp add: post_bookings_def ask_def campus_def room_def held_def at_hm_def
          find_active_facilities_def find_overlapping_def requiresAdminApproval_def uniq_def
          booked_set_def set_add_def new_booking_def Let_def)
  from a b c show ?thesis by blast
qed

section \<open>Approve, reject, cancel and scan\<close>

text \<open>The approve route refuses every booking that is not pending.\<close>

lemma approve_guard:
  "status b \<noteq> PENDING \<Longrightarrow> status b \<noteq> PENDING_ADMIN \<Longrightarrow> approve_booking e u notes b = Inl 400"
  by (simp add: approve_booking_def)

text \<open>
  C7.  The claim asks that approve and reject both refuse a booking that is not PENDING or
  PENDING_ADMIN and leave it unchanged.  Approve does; reject has no such test: on the
  APPROVED booking below approve answers 400 and changes nothing, while reject answers 200
  and stores the booking as REJECTED with a new approval record.
\<close>

theorem reject_lacks_pending_guard:
  "patch_approve morning registrar 10 None (campus [room] [held 10 1 APPROVED ''V1StGXR8''])
     = (Failure 400, campus [room] [held 10 1 APPROVED ''V1StGXR8''])
   \<and> (\<exists>b. patch_reject morning registrar 10 None (campus [room] [held 10 1 APPROVED ''V1StGXR8''])
              = (Reply 200 b, campus [room] [b])
          \<and> status b = REJECTED
          \<and> approval b = \<lparr> ap_type = Some MANUAL, ap_by = Some 1, ap_at = Some (at_hm 9 45),
                             ap_notes = None \<rparr>
          \<and> approval (held 10 1 APPROVED ''V1StGXR8'') = no_approval)"
  by (simp add: patch_approve_def patch_reject_def with_booking_def findById_def save_def
        requireRole_def registrar_def morning_def campus_def held_def approve_booking_def
        reject_booking_def push_audit_def)

text \<open>
  On a booking in a terminal status, approve and the scan answer 400 and save nothing;
  cancel answers an error (403, or 400 for CHECKED_OUT) or saves the booking as
  CANCELLED.  The routes apply these updates through \<open>with_booking\<close> and
  \<open>post_scan\<close>, which leave the database as it was on an error.
\<close>

lemma guarded_routes_keep_terminal:
  assumes "terminal (status b)"
  shows "approve_booking e u notes b = Inl 400
       \<and> scan_booking e u b = Inl 400
       \<and> (case cancel_booking e u notes b of
             Inl c \<Rightarrow> c = 403 \<or> c = 400
           | Inr b' \<Rightarrow> status b' = CANCELLED \<and> status b \<noteq> CHECKED_OUT)"
proof -
  from assms have s: "status b = REJECTED \<or> status b = CANCELLED \<or> status b = EXPIRED \<or> status b = CHECKED_OUT"
    by (simp add: terminal_def)
  then have "approve_booking e u notes b = Inl 400"
    by (auto intro: approve_guard)
  moreover from s have "scan_booking e u b = Inl 400"
    by (auto simp: scan_booking_def)
  moreover have "case cancel_booking e u notes b of
             Inl c \<Rightarrow> c = 403 \<or> c = 400
           | Inr b' \<Rightarrow> status b' = CANCELLED \<and> status b \<noteq> CHECKED_OUT"
    by (simp add: cancel_booking_def push_audit_def Let_def)
  ultimately show ?thesis by blast
qed

text \<open>
  Cancel only refuses bookings that are checked in or out, so a REJECTED booking
  cancelled by its owner becomes CANCELLED.
\<close>

lemma cancel_turns_rejected_into_cancelled:
  "terminal (status (held 10 1 REJECTED ''V1StGXR8''))
   \<and> (\<exists>b. patch_cancel morning student 10 None (campus [room] [held 10 1 REJECTED ''V1StGXR8''])
              = (Reply 200 b, campus [room] [b])
          \<and> status b = CANCELLED \<and> status b \<noteq> status (held 10 1 REJECTED ''V1StGXR8''))"
  by (simp add: patch_cancel_def with_booking_def findById_def save_def terminal_def
        student_def morning_def campus_def held_def cancel_booking_def truthy_def push_audit_def)

text \<open>
  The owner of a cancelled booking files a check-in request; the route does not read the
  booking's status.
\<close>

lemma cancelled_request_filed:
  "post_check_in_request morning student
       \<lparr> rb_bookingId = Some 10, rb_facilityId = Some 1, rb_type = Some CHECK_IN \<rparr> []
       (campus [room] [held 10 1 CANCELLED ''V1StGXR8''])
     = (Answered 201 \<lparr> cr_id = 20, cr_bookingId = 10, cr_userId = 7, cr_facilityId = 1,
                        cr_type = CHECK_IN, cr_status = REQUEST_PENDING,
                        cr_processedBy = None, cr_processedAt = None \<rparr>,
        [\<lparr> cr_id = 20, cr_bookingId = 10, cr_userId = 7, cr_facilityId = 1,
           cr_type = CHECK_IN, cr_status = REQUEST_PENDING,
           cr_processedBy = None, cr_processedAt = None \<rparr>])"
  by (simp add: post_check_in_request_def findById_def campus_def held_def student_def morning_def
        Let_def)

text \<open>
  C8.  The claim asks that no operation change the status of a booking that is REJECTED,
  CANCELLED, EXPIRED or CHECKED_OUT.  The scan refuses the cancelled booking below with
  400.  The check-in request route accepts a request for it from its owner, and the
  approval of that request sets the booking's status to CHECKED_IN without reading it: the
  booking has left the terminal statuses.
\<close>

theorem check_in_request_revives_cancelled:
  "terminal (status (held 10 1 CANCELLED ''V1StGXR8''))
   \<and> scan_booking morning registrar (held 10 1 CANCELLED ''V1StGXR8'') = Inl 400
   \<and> (\<exists>r. post_check_in_request morning student
               \<lparr> rb_bookingId = Some 10, rb_facilityId = Some 1, rb_type = Some CHECK_IN \<rparr> []
               (campus [room] [held 10 1 CANCELLED ''V1StGXR8''])
             = (Answered 201 r, [r])
          \<and> (\<exists>r' b. patch_check_in_approve morning registrar (cr_id r) [r]
                        (campus [room] [held 10 1 CANCELLED ''V1StGXR8''])
                      = (Answered 200 r', [r'], campus [room] [b])
                   \<and> b_id b = 10 \<and> status b = CHECKED_IN \<and> \<not> terminal (status b)))"
proof -
  have t: "terminal (status (held 10 1 CANCELLED ''V1StGXR8''))"
    by (simp add: terminal_def held_def)
  have s: "scan_booking morning registrar (held 10 1 CANCELLED ''V1StGXR8'') = Inl 400"
    by (simp add: scan_booking_def held_def)
  have a: "\<exists>r' b. patch_check_in_approve morning registrar 20
                 [\<lparr> cr_id = 20, cr_bookingId = 10, cr_userId = 7, cr_facilityId = 1,
                    cr_type = CHECK_IN, cr_status = REQUEST_PENDING,
                    cr_processedBy = None, cr_processedAt = None \<rparr>]
                 (campus [room] [held 10 1 CANCELLED ''V1StGXR8''])
               = (Answered 200 r', [r'], campus [room] [b])
             \<and> b_id b = 10 \<and> status b = CHECKED_IN \<and> \<not> terminal (status b)"
    by (simp add: patch_check_in_approve_def requireRole_def registrar_def findById_def
          save_def save_request_def campus_def held_def morning_def push_audit_def terminal_def
          Let_def)
  from t s a show ?thesis
    unfolding cancelled_request_filed by simp
qed

section \<open>Manual check-in codes\<close>

text \<open>
  The uppercased string has no lowercase letter, so it differs from every code that has
  one; the lookup returns a stored booking with the code asked for; booking ids are
  unique; the scan keeps a booking's id and code and saves under that id.
\<close>

lemma upper_char_not_lower: "\<not> is_lower (toUpperCase_char c)"
  unfolding toUpperCase_char_def is_lower_def
  by (auto simp: of_char_of)

lemma upper_has_no_lower: "\<not> has_lower (toUpperCase s)"
  by (simp add: has_lower_def toUpperCase_def list_ex_iff upper_char_not_lower)

lemma lower_code_not_upper: "has_lower code \<Longrightarrow> code \<noteq> toUpperCase m"
  using upper_has_no_lower by metis

lemma manual_query:
  "scan_query \<lparr> scan_qrData = None, scan_manualCode = Some m \<rparr> =
     (if m = [] then Inl 400 else Inr (toUpperCase m, None))"
  by (simp add: scan_query_def truthy_def)

lemma find_SomeD: "find P xs = Some x \<Longrightarrow> P x \<and> x \<in> set xs"
  by (induction xs) (auto split: if_splits)

lemma findOne_found:
  "findOne_checkIn bs q = Some x \<Longrightarrow> x \<in> set bs \<and> checkInCode x = fst q"
  unfolding findOne_checkIn_def by (drule find_SomeD) simp

lemma same_id_same_booking:
  "distinct (map b_id bs) \<Longrightarrow> x \<in> set bs \<Longrightarrow> y \<in> set bs \<Longrightarrow> b_id x = b_id y \<Longrightarrow> x = y"
  by (auto simp: distinct_map dest: inj_onD)

lemma findOne_by_id:
  assumes "distinct (map b_id bs)" "b \<in> set bs"
  shows "findOne_checkIn bs (checkInCode b, Some (b_id b)) = Some b"
proof -
  let ?P = "\<lambda>x. checkInCode x = checkInCode b \<and> b_id x = b_id b"
  have "find ?P bs \<noteq> None" using assms(2) by (auto simp: find_None_iff)
  then obtain x where x: "find ?P bs = Some x" by blast
  from find_SomeD[OF this] have "x \<in> set bs" "b_id x = b_id b" by simp_all
  with assms have "x = b" by (simp add: same_id_same_booking)
  with x show ?thesis by (simp add: findOne_checkIn_def)
qed

lemma scan_booking_keeps:
  "scan_booking e u x = Inr (a, x') \<Longrightarrow> b_id x' = b_id x \<and> checkInCode x' = checkInCode x"
  by (auto simp: scan_booking_def push_audit_def Let_def split: if_splits)

lemma save_other:
  assumes "b \<in> set bs" "b_id b \<noteq> b_id x'"
  shows "b \<in> set (save x' bs)"
proof -
  have "b = (if b_id b = b_id x' then x' else b)" using assms(2) by simp
  then have "b \<in> (\<lambda>x. if b_id x = b_id x' then x' else x) ` set bs"
    using assms(1) by (rule image_eqI)
  then show ?thesis by (simp add: save_def)
qed

lemma manual_scan_keeps:
  assumes dist: "distinct (map b_id (db_bookings d))"
      and b: "b \<in> set (db_bookings d)"
      and low: "has_lower (checkInCode b)"
  shows "b \<in> set (db_bookings (snd (post_scan e u \<lparr> scan_qrData = None, scan_manualCode = Some m \<rparr> d)))"
proof (cases "requireRole [ADMIN, STAFF] u \<and> m \<noteq> []")
  case False
  then show ?thesis using b by (auto simp: post_scan_def manual_query)
next
  case True
  show ?thesis
  proof (cases "findOne_checkIn (db_bookings d) (toUpperCase m, None)")
    case None
    then show ?thesis using True b by (simp add: post_scan_def manual_query)
  next
    case (Some x)
    from findOne_found[OF Some] have x: "x \<in> set (db_bookings d)" "checkInCode x = toUpperCase m"
      by simp_all
    with low have "x \<noteq> b" using lower_code_not_upper by metis
    with dist x(1) b have ne: "b_id b \<noteq> b_id x" using same_id_same_booking by blast
    show ?thesis
    proof (cases "scan_booking e u x")
      case (Inl c)
      then show ?thesis using True Some b by (simp add: post_scan_def manual_query)
    next
      case (Inr r)
      obtain a x' where r: "r = (a, x')" by (cases r)
      with Inr scan_booking_keeps have "b_id x' = b_id x" by blast
      with ne have "b \<in> set (save x' (db_bookings d))" using b by (simp add: save_other)
      then show ?thesis using True Some Inr r by (simp add: post_scan_def manual_query)
    qed
  qed
qed

text \<open>
  C9 (as the handler has it).  Let a stored booking's check-in code contain a lowercase
  letter, with unique booking ids and a scanning user who is ADMIN or STAFF.  Then no
  manual code makes the lookup return that booking, and the booking is still in the
  collection, unchanged, after any manual scan; submitting the booking's own code is
  answered 404 with the database unchanged whenever no stored booking carries the
  uppercased code; and the QR payload of the booking, which carries code and id as they
  are, finds it.
\<close>

theorem manual_code_never_finds_lowercase:
  assumes dist: "distinct (map b_id (db_bookings d))"
      and b: "b \<in> set (db_bookings d)"
      and low: "has_lower (checkInCode b)"
      and role: "requireRole [ADMIN, STAFF] u"
  shows "(\<forall>m q. scan_query \<lparr> scan_qrData = None, scan_manualCode = Some m \<rparr> = Inr q
              \<longrightarrow> findOne_checkIn (db_bookings d) q \<noteq> Some b)
       \<and> (\<forall>m. b \<in> set (db_bookings (snd (post_scan e u \<lparr> scan_qrData = None, scan_manualCode = Some m \<rparr> d))))
       \<and> ((\<nexists>x. x \<in> set (db_bookings d) \<and> checkInCode x = toUpperCase (checkInCode b))
            \<longrightarrow> post_scan e u \<lparr> scan_qrData = None, scan_manualCode = Some (checkInCode b) \<rparr> d
                  = (Failure 404, d))
       \<and> (\<exists>q. scan_query \<lparr> scan_qrData = Some (Parsed (qr_of b)), scan_manualCode = mc \<rparr> = Inr q
              \<and> findOne_checkIn (db_bookings d) q = Some b)"
proof (intro conjI allI impI)
  fix m q
  assume "scan_query \<lparr> scan_qrData = None, scan_manualCode = Some m \<rparr> = Inr q"
  then have q: "fst q = toUpperCase m" by (auto simp: manual_query split: if_splits)
  show "findOne_checkIn (db_bookings d) q \<noteq> Some b"
  proof
    assume "findOne_checkIn (db_bookings d) q = Some b"
    from findOne_found[OF this] q have "checkInCode b = toUpperCase m" by simp
    with low show False using lower_code_not_upper by metis
  qed
next
  fix m
  show "b \<in> set (db_bookings (snd (post_scan e u \<lparr> scan_qrData = None, scan_manualCode = Some m \<rparr> d)))"
    using dist b low by (rule manual_scan_keeps)
next
  assume none: "\<nexists>x. x \<in> set (db_bookings d) \<and> checkInCode x = toUpperCase (checkInCode b)"
  have "findOne_checkIn (db_bookings d) (toUpperCase (checkInCode b), None) = None"
  proof (cases "findOne_checkIn (db_bookings d) (toUpperCase (checkInCode b), None)")
    case (Some x)
    from findOne_found[OF Some] none show ?thesis by auto
  qed simp
  moreover from low have "checkInCode b \<noteq> []" by (auto simp: has_lower_def)
  ultimately show "post_scan e u \<lparr> scan_qrData = None, scan_manualCode = Some (checkInCode b) \<rparr> d
                  = (Failure 404, d)"
    using role by (simp add: post_scan_def manual_query)
next
  have "scan_query \<lparr> scan_qrData = Some (Parsed (qr_of b)), scan_manualCode = mc \<rparr>
          = Inr (checkInCode b, Some (b_id b))"
    by (simp add: scan_query_def qr_of_def)
  with findOne_by_id[OF dist b]
  show "\<exists>q. scan_query \<lparr> scan_qrData = Some (Parsed (qr_of b)), scan_manualCode = mc \<rparr> = Inr q
              \<and> findOne_checkIn (db_bookings d) q = Some b"
    by simp
qed

lemma code_facts:
  "has_lower ''Uakgb_J5''" "toUpperCase ''Uakgb_J5'' = ''UAKGB_J5''"
  by code_simp+

theorem manual_code_never_finds_lowercase_witness:
  "post_scan morning registrar \<lparr> scan_qrData = None, scan_manualCode = Some ''Uakgb_J5'' \<rparr>
       (campus [room] [held 10 1 APPROVED ''Uakgb_J5''])
     = (Failure 404, campus [room] [held 10 1 APPROVED ''Uakgb_J5''])
   \<and> (\<exists>q. scan_query \<lparr> scan_qrData = Some (Parsed (qr_of (held 10 1 APPROVED ''Uakgb_J5''))),
                        scan_manualCode = None \<rparr> = Inr q
          \<and> findOne_checkIn [held 10 1 APPROVED ''Uakgb_J5''] q = Some (held 10 1 APPROVED ''Uakgb_J5''))"
proof -
  let ?b = "held 10 1 APPROVED ''Uakgb_J5''"
  let ?d = "campus [room] [?b]"
  have code: "checkInCode ?b = ''Uakgb_J5''" by (simp add: held_def)
  have 1: "distinct (map b_id (db_bookings ?d))" by (simp add: campus_def)
  have 2: "?b \<in> set (db_bookings ?d)" by (simp add: campus_def)
  have 3: "has_lower (checkInCode ?b)" unfolding code by (rule code_facts(1))
  have 4: "requireRole [ADMIN, STAFF] registrar" by (simp add: requireRole_def registrar_def)
  have 5: "\<nexists>x. x \<in> set (db_bookings ?d) \<and> checkInCode x = toUpperCase (checkInCode ?b)"
    unfolding code code_facts(2) by (simp add: campus_def held_def)
  have bs: "db_bookings ?d = [?b]" by (simp add: campus_def)
  from manual_code_never_finds_lowercase[OF 1 2 3 4, of morning None] 5
  show ?thesis unfolding code bs by blast
qed

text \<open>
  C9 as stated (the scan answers not-found when the booking's own code is submitted)
  fails when another booking carries the uppercased code: the scan then checks that
  other booking in.
\<close>

theorem manual_scan_counterexample:
  "has_lower (checkInCode (held 10 1 APPROVED ''Uakgb_J5''))
   \<and> (\<exists>b. fst (post_scan morning registrar
                  \<lparr> scan_qrData = None,
                    scan_manualCode = Some (checkInCode (held 10 1 APPROVED ''Uakgb_J5'')) \<rparr>
                  (campus [room, bench]
                     [held 10 1 APPROVED ''Uakgb_J5'', held 11 4 APPROVED ''UAKGB_J5'']))
             = Scanned ''checkin'' b
          \<and> b_id b = 11 \<and> status b = CHECKED_IN)"
proof -
  have code: "checkInCode (held 10 1 APPROVED ''Uakgb_J5'') = ''Uakgb_J5''" by (simp add: held_def)
  have q: "scan_query \<lparr> scan_qrData = None, scan_manualCode = Some ''Uakgb_J5'' \<rparr>
             = Inr (''UAKGB_J5'', None)"
    by (simp add: manual_query code_facts(2))
  have "\<exists>b. fst (post_scan morning registrar
                  \<lparr> scan_qrData = None, scan_manualCode = Some ''Uakgb_J5'' \<rparr>
                  (campus [room, bench]
                     [held 10 1 APPROVED ''Uakgb_J5'', held 11 4 APPROVED ''UAKGB_J5'']))
             = Scanned ''checkin'' b
          \<and> b_id b = 11 \<and> status b = CHECKED_IN"
    by (simp add: post_scan_def q requireRole_def registrar_def campus_def findOne_checkIn_def
          held_def scan_booking_def morning_def at_hm_def push_audit_def Let_def)
  then show ?thesis unfolding code using code_facts(1) by blast
qed

end
